theory Spec2Isabelle
  imports Main
begin

section \<open>The shape rewriter of \<open>converter/onnx_batch_size_converter.py\<close>\<close>

text \<open>
  The module has one function with logic, \<open>update_inputs_outputs_dims\<close>, and two functions
  nested in it, \<open>init_dim_param_set\<close> and \<open>update_dim\<close>. It works on a protobuf
  \<open>ModelProto\<close>; the parts of that message the function reads or writes are modelled
  field by field, everything else is carried along in a field of arbitrary type.
\<close>

subsection \<open>Data\<close>

text \<open>
  A value of the Python type \<open>Any\<close> found in a dimension list. \<open>bool\<close> is kept apart
  from \<open>int\<close> because the two print differently, although \<open>isinstance(True, int)\<close>
  holds. \<open>PyOther\<close> is any object that is neither an \<open>int\<close> nor a \<open>str\<close>
  (\<open>None\<close>, a float, a list, ...).
\<close>

datatype pyval = PyInt int | PyBool bool | PyStr string | PyOther

text \<open>
  \<open>TensorShapeProto.Dimension\<close>: the oneof \<open>value\<close> with its members \<open>dim_value\<close>
  and \<open>dim_param\<close> (assigning one member clears the other; a fresh message has neither),
  and the string field \<open>denotation\<close>. \<open>dim_value\<close> is an \<open>int64\<close> field; the model takes
  Python's unbounded \<open>int\<close> and leaves the range check of the protobuf library aside.
\<close>

datatype dim_oneof = Value_not_set | Dim_value int | Dim_param string

record dimension =
  dim_oneof :: dim_oneof
  denotation :: string

text \<open>
  \<open>ValueInfoProto\<close>: the \<open>name\<close>, the repeated field \<open>type.tensor_type.shape.dim\<close>,
  and the remaining fields (\<open>elem_type\<close>, \<open>doc_string\<close>, ...). Reading the shape of a
  message that has none gives an empty \<open>dim\<close> list and creates nothing, so an absent
  shape is the empty list.
\<close>

record 'v value_info_proto =
  name :: string
  shape_dim :: "dimension list"
  info_other :: 'v

text \<open>
  \<open>ModelProto\<close>: the three repeated fields \<open>input\<close>, \<open>output\<close> and \<open>value_info\<close> of
  \<open>model.graph\<close> that the function touches, and
  the rest of the message (nodes, initializers, opset imports, ...). Protobuf repeated
  fields own their elements, so no two of the lists share a tensor.
\<close>

record ('v, 'g) model_proto =
  graph_input :: "'v value_info_proto list"
  graph_output :: "'v value_info_proto list"
  graph_value_info :: "'v value_info_proto list"
  model_other :: 'g

text \<open>
  What the function can raise: \<open>KeyError\<close> from a dict subscript, \<open>IndexError\<close> from
  \<open>shape.dim[j]\<close>, the three \<open>ValueError\<close>s of \<open>update_dim\<close> with the values their
  messages are formatted from, and the failure of \<open>onnx.checker.check_model\<close>.
\<close>

datatype error =
    KeyError string
  | IndexError
  | ValueError_contradicts pyval nat string int
  | ValueError_not_unique nat string
  | ValueError_type pyval
  | ValidationError

subsection \<open>Python primitives\<close>

text \<open>\<open>isinstance(dim, int)\<close>, with the integer the value compares as.\<close>

fun as_int :: "pyval \<Rightarrow> int option" where
  "as_int (PyInt i) = Some i"
| "as_int (PyBool b) = Some (if b then 1 else 0)"
| "as_int (PyStr s) = None"
| "as_int PyOther = None"

text \<open>\<open>str(j)\<close> for the non-negative indices that \<open>enumerate\<close> produces.\<close>

definition digit_char :: "nat \<Rightarrow> char" where
  "digit_char d = ''0123456789'' ! d"

function str :: "nat \<Rightarrow> string" where
  "str n = (if n < 10 then [digit_char n] else str (n div 10) @ [digit_char (n mod 10)])"
  by pat_completeness auto
termination
  by (relation "measure id") auto

declare str.simps [simp del]

subsection \<open>The nested functions\<close>

text \<open>
  \<open>init_dim_param_set\<close> (lines 36-43) adds to the set every \<open>dim_param\<close> that is set in
  the given tensors. The Python mutates the set; the model returns it.
\<close>

definition add_dim_param :: "dimension \<Rightarrow> string set \<Rightarrow> string set" where
  "add_dim_param d dim_param_set =
     (case dim_oneof d of Dim_param p \<Rightarrow> insert p dim_param_set | _ \<Rightarrow> dim_param_set)"

definition init_dim_param_set ::
  "string set \<Rightarrow> 'v value_info_proto list \<Rightarrow> string set" where
  "init_dim_param_set dim_param_set value_infos =
     fold (\<lambda>info. fold add_dim_param (shape_dim info)) value_infos dim_param_set"

text \<open>Assignment to one member of the oneof of axis \<open>j\<close>; \<open>denotation\<close> is not touched.\<close>

definition set_dim ::
  "'v value_info_proto \<Rightarrow> nat \<Rightarrow> dim_oneof \<Rightarrow> 'v value_info_proto" where
  "set_dim tensor j v =
     tensor\<lparr>shape_dim := (shape_dim tensor)[j := (shape_dim tensor ! j)\<lparr>dim_oneof := v\<rparr>]\<rparr>"

definition generated_dim_param :: "string \<Rightarrow> nat \<Rightarrow> string" where
  "generated_dim_param nm j = nm @ ''_'' @ str j"

text \<open>
  \<open>update_dim\<close> (lines 48-73). The set \<open>dim_param_set\<close> of the enclosing call is read
  through the closure and never written, so it is a parameter. The subscript
  \<open>shape.dim[j]\<close> comes first and raises \<open>IndexError\<close> out of range (\<open>j\<close> comes from
  \<open>enumerate\<close> and is never negative). Every \<open>raise\<close> precedes the assignment of its
  branch, so a failing \<open>update_dim\<close> leaves the tensor as it was.
\<close>

definition update_dim ::
  "string set \<Rightarrow> 'v value_info_proto \<Rightarrow> pyval \<Rightarrow> nat \<Rightarrow> string \<Rightarrow> error + 'v value_info_proto" where
  "update_dim dim_param_set tensor dim j nm =
     (if length (shape_dim tensor) \<le> j then Inl IndexError
      else
        let dim_proto = shape_dim tensor ! j in
        case as_int dim of
          Some d \<Rightarrow>
            if d \<ge> 0 then
              (case dim_oneof dim_proto of
                 Dim_value v \<Rightarrow>
                   if v \<noteq> d then Inl (ValueError_contradicts dim j nm v)
                   else Inr (set_dim tensor j (Dim_value d))
               | _ \<Rightarrow> Inr (set_dim tensor j (Dim_value d)))
            else
              (let generated = generated_dim_param nm j in
               if generated \<in> dim_param_set then Inl (ValueError_not_unique j nm)
               else Inr (set_dim tensor j (Dim_param generated)))
        | None \<Rightarrow>
            (case dim of
               PyStr s \<Rightarrow> Inr (set_dim tensor j (Dim_param s))
             | _ \<Rightarrow> Inl (ValueError_type dim)))"

subsection \<open>The loops\<close>

text \<open>
  \<open>for j, dim in enumerate(dim_arr): update_dim(tensor, dim, j, name)\<close>, started at index
  \<open>j\<close>. The result is the tensor as the loop leaves it and the exception that ended the
  loop, if any: the axes updated before the exception stay updated.
\<close>

fun update_dims ::
  "string set \<Rightarrow> 'v value_info_proto \<Rightarrow> string \<Rightarrow> nat \<Rightarrow> pyval list
     \<Rightarrow> 'v value_info_proto \<times> error option" where
  "update_dims dim_param_set tensor nm j [] = (tensor, None)"
| "update_dims dim_param_set tensor nm j (dim # dim_arr) =
     (case update_dim dim_param_set tensor dim j nm of
        Inl e \<Rightarrow> (tensor, Some e)
      | Inr tensor' \<Rightarrow> update_dims dim_param_set tensor' nm (Suc j) dim_arr)"

text \<open>
  The body of the loops over the tensors (lines 75-78 and 81-84): the dict subscript
  \<open>dims[name]\<close>, which raises \<open>KeyError\<close> for an absent key, then the loop over the axes.
\<close>

definition update_tensor ::
  "string set \<Rightarrow> (string \<rightharpoonup> pyval list) \<Rightarrow> 'v value_info_proto
     \<Rightarrow> 'v value_info_proto \<times> error option" where
  "update_tensor dim_param_set dims tensor =
     (case dims (name tensor) of
        None \<Rightarrow> (tensor, Some (KeyError (name tensor)))
      | Some dim_arr \<Rightarrow> update_dims dim_param_set tensor (name tensor) 0 dim_arr)"

text \<open>
  \<open>for input in model.graph.input: ...\<close> and its twin for the outputs: the tensors in
  order, stopping at the first exception with the list as it is then.
\<close>

fun update_tensors ::
  "string set \<Rightarrow> (string \<rightharpoonup> pyval list) \<Rightarrow> 'v value_info_proto list
     \<Rightarrow> 'v value_info_proto list \<times> error option" where
  "update_tensors dim_param_set dims [] = ([], None)"
| "update_tensors dim_param_set dims (tensor # tensors) =
     (case update_tensor dim_param_set dims tensor of
        (tensor', Some e) \<Rightarrow> (tensor' # tensors, Some e)
      | (tensor', None) \<Rightarrow>
          (case update_tensors dim_param_set dims tensors of
             (tensors', r) \<Rightarrow> (tensor' # tensors', r)))"

subsection \<open>The function\<close>

text \<open>
  The set built by lines 35 and 45-47 from the model as it is on entry.
\<close>

definition dim_param_set_of :: "('v, 'g) model_proto \<Rightarrow> string set" where
  "dim_param_set_of model =
     init_dim_param_set
       (init_dim_param_set (init_dim_param_set {} (graph_input model)) (graph_output model))
       (graph_value_info model)"

text \<open>
  \<open>update_inputs_outputs_dims\<close> (lines 9-86) as a state transformer: the result is the
  state of the object \<open>model\<close> when the call ends and how it ends, \<open>Inr ()\<close> for
  \<open>return model\<close> and \<open>Inl e\<close> for an exception. \<open>onnx.checker.check_model\<close> is not part
  of the repository; it is the parameter \<open>check_model\<close>, a predicate that holds when the
  checker returns and fails when it raises, and that does not change the model.
\<close>

definition update_inputs_outputs_dims ::
  "(('v, 'g) model_proto \<Rightarrow> bool) \<Rightarrow> ('v, 'g) model_proto
     \<Rightarrow> (string \<rightharpoonup> pyval list) \<Rightarrow> (string \<rightharpoonup> pyval list)
     \<Rightarrow> ('v, 'g) model_proto \<times> (error + unit)" where
  "update_inputs_outputs_dims check_model model input_dims output_dims =
     (let dim_param_set = dim_param_set_of model in
      case update_tensors dim_param_set input_dims (graph_input model) of
        (inputs, Some e) \<Rightarrow> (model\<lparr>graph_input := inputs\<rparr>, Inl e)
      | (inputs, None) \<Rightarrow>
          (case update_tensors dim_param_set output_dims (graph_output model) of
             (outputs, Some e) \<Rightarrow> (model\<lparr>graph_input := inputs, graph_output := outputs\<rparr>, Inl e)
           | (outputs, None) \<Rightarrow>
               (let model' = model\<lparr>graph_input := inputs, graph_output := outputs\<rparr> in
                if check_model model' then (model', Inr ())
                else (model', Inl ValidationError))))"

text \<open>
  The same call with the object identity written out: the argument is a reference into
  a store of models, the body works on the object the reference points to, and
  \<open>return model\<close> hands the reference back.
\<close>

type_synonym ref = nat

definition update_inputs_outputs_dims_call ::
  "(('v, 'g) model_proto \<Rightarrow> bool) \<Rightarrow> (ref \<Rightarrow> ('v, 'g) model_proto) \<Rightarrow> ref
     \<Rightarrow> (string \<rightharpoonup> pyval list) \<Rightarrow> (string \<rightharpoonup> pyval list)
     \<Rightarrow> (ref \<Rightarrow> ('v, 'g) model_proto) \<times> (error + ref)" where
  "update_inputs_outputs_dims_call check_model store model input_dims output_dims =
     (case update_inputs_outputs_dims check_model (store model) input_dims output_dims of
        (m', Inl e) \<Rightarrow> (store(model := m'), Inl e)
      | (m', Inr u) \<Rightarrow> (store(model := m'), Inr model))"

subsection \<open>Auxiliary definitions for the statements\<close>

text \<open>
  A tensor with the oneof value of every axis erased. Two tensors with the same image
  have the same name, the same remaining fields, the same number of axes and the same
  \<open>denotation\<close> on every axis: they differ at most in \<open>dim_value\<close> and \<open>dim_param\<close>.
\<close>

definition erase_dim_values :: "'v value_info_proto \<Rightarrow> 'v value_info_proto" where
  "erase_dim_values t =
     t\<lparr>shape_dim := map (\<lambda>d. d\<lparr>dim_oneof := Value_not_set\<rparr>) (shape_dim t)\<rparr>"

text \<open>Tensors and models for the examples, in the way of \<open>onnx.helper\<close>.\<close>

definition make_tensor_value_info :: "string \<Rightarrow> dim_oneof list \<Rightarrow> 'v \<Rightarrow> 'v value_info_proto" where
  "make_tensor_value_info nm shape other =
     \<lparr>name = nm, shape_dim = map (\<lambda>v. \<lparr>dim_oneof = v, denotation = ''''\<rparr>) shape,
      info_other = other\<rparr>"

definition make_model ::
  "'v value_info_proto list \<Rightarrow> 'v value_info_proto list \<Rightarrow> 'v value_info_proto list \<Rightarrow> 'g
     \<Rightarrow> ('v, 'g) model_proto" where
  "make_model inputs outputs value_infos other =
     \<lparr>graph_input = inputs, graph_output = outputs, graph_value_info = value_infos,
      model_other = other\<rparr>"

text \<open>A validator that accepts every model and one that rejects every model, for the examples.\<close>

definition accept_all :: "('v, 'g) model_proto \<Rightarrow> bool" where
  "accept_all model = True"

definition reject_all :: "('v, 'g) model_proto \<Rightarrow> bool" where
  "reject_all model = False"

subsection \<open>Models for the examples\<close>


definition shared_name_dims :: "string \<rightharpoonup> pyval list" where
  "shared_name_dims = [''x'' \<mapsto> [PyInt (- 1)]]"

definition taken_name_model :: "(unit, unit) model_proto" where
  "taken_name_model =
     make_model [make_tensor_value_info ''x'' [Dim_param ''n''] ()] []
       [make_tensor_value_info ''hidden'' [Dim_param ''x_0''] ()] ()"

text \<open>Two inputs of which the first contradicts, and two inputs of which the second has no entry.\<close>

definition preempted_model :: "(unit, unit) model_proto" where
  "preempted_model =
     make_model [make_tensor_value_info ''a'' [Dim_value 3] (),
                 make_tensor_value_info ''b'' [Dim_value 1] ()] [] [] ()"

definition preempted_input_dims :: "string \<rightharpoonup> pyval list" where
  "preempted_input_dims = [''a'' \<mapsto> [PyInt 4]]"

definition missing_model :: "(unit, unit) model_proto" where
  "missing_model =
     make_model [make_tensor_value_info ''a'' [Dim_param ''n''] (),
                 make_tensor_value_info ''b'' [Dim_param ''n''] ()] [] [] ()"

definition missing_input_dims :: "string \<rightharpoonup> pyval list" where
  "missing_input_dims = [''a'' \<mapsto> [PyStr ''batch'']]"

text \<open>A tensor with two axes, with one value and with three values supplied.\<close>

definition short_list_model :: "(unit, unit) model_proto" where
  "short_list_model =
     make_model [make_tensor_value_info ''x'' [Dim_value 2, Dim_value 3] ()] [] [] ()"

definition short_list_dims :: "string \<rightharpoonup> pyval list" where
  "short_list_dims = [''x'' \<mapsto> [PyStr ''batch'']]"

definition long_list_dims :: "string \<rightharpoonup> pyval list" where
  "long_list_dims = [''x'' \<mapsto> [PyStr ''batch'', PyInt 3, PyInt 7]]"

text \<open>A tensor whose first axis can be renamed and whose second axis contradicts.\<close>

definition partial_model :: "(unit, unit) model_proto" where
  "partial_model =
     make_model [make_tensor_value_info ''x'' [Dim_param ''n'', Dim_value 3] ()] [] [] ()"

definition partial_dims :: "string \<rightharpoonup> pyval list" where
  "partial_dims = [''x'' \<mapsto> [PyStr ''batch'', PyInt 4]]"





section \<open>Properties\<close>

subsection \<open>Auxiliary facts\<close>












lemma update_dim_Inr:
  "update_dim S t dim j nm = Inr t' \<Longrightarrow> j < length (shape_dim t) \<and> (\<exists>v. t' = set_dim t j v)"
  by (auto simp: update_dim_def Let_def split: if_splits option.splits dim_oneof.splits pyval.splits)

lemma set_dim_frame [simp]:
  "name (set_dim t j v) = name t"
  "info_other (set_dim t j v) = info_other t"
  "length (shape_dim (set_dim t j v)) = length (shape_dim t)"
  by (simp_all add: set_dim_def)

lemma set_dim_other_axis: "i \<noteq> j \<Longrightarrow> shape_dim (set_dim t j v) ! i = shape_dim t ! i"
  by (simp add: set_dim_def)

lemma erase_set_dim [simp]: "erase_dim_values (set_dim t j v) = erase_dim_values t"
proof (cases "j < length (shape_dim t)")
  case True
  then show ?thesis
    by (simp add: erase_dim_values_def set_dim_def map_update list_update_same_conv)
next
  case False
  then have "length (shape_dim t) \<le> j" by simp
  then have "(shape_dim t)[j := x] = shape_dim t" for x by (rule list_update_beyond)
  then show ?thesis by (simp add: erase_dim_values_def set_dim_def)
qed

lemma update_dims_append:
  "update_dims S t nm j (xs @ ys) =
     (case update_dims S t nm j xs of
        (t', Some e) \<Rightarrow> (t', Some e)
      | (t', None) \<Rightarrow> update_dims S t' nm (j + length xs) ys)"
  by (induction xs arbitrary: t j) (auto split: sum.splits)

lemma update_dims_frame:
  "update_dims S t nm j arr = (t', r) \<Longrightarrow>
     name t' = name t \<and> info_other t' = info_other t
     \<and> length (shape_dim t') = length (shape_dim t)
     \<and> erase_dim_values t' = erase_dim_values t"
proof (induction arr arbitrary: t j)
  case Nil
  then show ?case by simp
next
  case (Cons dim arr)
  show ?case
  proof (cases "update_dim S t dim j nm")
    case (Inl e)
    with Cons.prems show ?thesis by simp
  next
    case (Inr t1)
    then obtain v where t1: "t1 = set_dim t j v" using update_dim_Inr by blast
    from Cons.prems Inr have "update_dims S t1 nm (Suc j) arr = (t', r)" by simp
    from Cons.IH [OF this] t1 show ?thesis by simp
  qed
qed

lemma update_dims_untouched:
  "update_dims S t nm j arr = (t', r) \<Longrightarrow> i < j \<or> j + length arr \<le> i \<Longrightarrow>
     shape_dim t' ! i = shape_dim t ! i"
proof (induction arr arbitrary: t j)
  case Nil
  then show ?case by simp
next
  case (Cons dim arr)
  show ?case
  proof (cases "update_dim S t dim j nm")
    case (Inl e)
    with Cons.prems show ?thesis by simp
  next
    case (Inr t1)
    then obtain v where t1: "t1 = set_dim t j v" using update_dim_Inr by blast
    from Cons.prems Inr have "update_dims S t1 nm (Suc j) arr = (t', r)" by simp
    from Cons.IH [OF this] Cons.prems(2) have "shape_dim t' ! i = shape_dim t1 ! i" by auto
    moreover have "i \<noteq> j" using Cons.prems(2) by auto
    ultimately show ?thesis using t1 by (simp add: set_dim_other_axis)
  qed
qed

lemma update_dims_ok_length:
  "update_dims S t nm j arr = (t', None) \<Longrightarrow> arr \<noteq> [] \<Longrightarrow> j + length arr \<le> length (shape_dim t)"
proof (induction arr arbitrary: t j)
  case Nil
  then show ?case by simp
next
  case (Cons dim arr)
  from Cons.prems obtain t1 where Inr: "update_dim S t dim j nm = Inr t1"
    and rest: "update_dims S t1 nm (Suc j) arr = (t', None)"
    by (auto split: sum.splits)
  from update_dim_Inr [OF Inr] obtain v where j: "j < length (shape_dim t)" and t1: "t1 = set_dim t j v"
    by blast
  show ?case
  proof (cases arr)
    case Nil
    with j show ?thesis by simp
  next
    case (Cons a as)
    with Cons.IH [OF rest] t1 show ?thesis by simp
  qed
qed

lemma update_dim_IndexError:
  "update_dim S t dim j nm = Inl IndexError \<longleftrightarrow> length (shape_dim t) \<le> j"
  by (auto simp: update_dim_def Let_def split: option.splits dim_oneof.splits pyval.splits)

lemma update_dims_fail:
  "update_dims S t nm j arr = (t', Some e) \<Longrightarrow>
     \<exists>k < length arr. update_dims S t nm j (take k arr) = (t', None)
        \<and> update_dim S t' (arr ! k) (j + k) nm = Inl e"
proof (induction arr arbitrary: t j)
  case Nil
  then show ?case by simp
next
  case (Cons dim arr)
  show ?case
  proof (cases "update_dim S t dim j nm")
    case (Inl e')
    with Cons.prems have "t' = t" "e' = e" by auto
    with Inl have "update_dims S t nm j (take 0 (dim # arr)) = (t', None)
        \<and> update_dim S t' ((dim # arr) ! 0) (j + 0) nm = Inl e" by simp
    then show ?thesis by blast
  next
    case (Inr t1)
    with Cons.prems have "update_dims S t1 nm (Suc j) arr = (t', Some e)" by simp
    from Cons.IH [OF this] obtain k where k: "k < length arr"
      "update_dims S t1 nm (Suc j) (take k arr) = (t', None)"
      "update_dim S t' (arr ! k) (Suc j + k) nm = Inl e" by blast
    with Inr have "Suc k < length (dim # arr)
        \<and> update_dims S t nm j (take (Suc k) (dim # arr)) = (t', None)
        \<and> update_dim S t' ((dim # arr) ! Suc k) (j + Suc k) nm = Inl e" by simp
    then show ?thesis by blast
  qed
qed

lemma update_dims_IndexError:
  assumes "update_dims S t nm j arr = (t', Some IndexError)"
  shows "length (shape_dim t) < j + length arr"
proof -
  from update_dims_fail [OF assms] obtain k where k: "k < length arr"
    "update_dims S t nm j (take k arr) = (t', None)"
    "update_dim S t' (arr ! k) (j + k) nm = Inl IndexError" by blast
  from k(3) have "length (shape_dim t') \<le> j + k" by (simp add: update_dim_IndexError)
  moreover from update_dims_frame [OF k(2)] have "length (shape_dim t') = length (shape_dim t)" by simp
  ultimately show ?thesis using k(1) by simp
qed

lemma update_tensor_frame:
  "update_tensor S dims t = (t', r) \<Longrightarrow>
     name t' = name t \<and> info_other t' = info_other t
     \<and> length (shape_dim t') = length (shape_dim t)
     \<and> erase_dim_values t' = erase_dim_values t"
  by (auto simp: update_tensor_def split: option.splits dest: update_dims_frame)

lemma update_tensors_append:
  "update_tensors S dims (xs @ ys) =
     (case update_tensors S dims xs of
        (xs', Some e) \<Rightarrow> (xs' @ ys, Some e)
      | (xs', None) \<Rightarrow> (case update_tensors S dims ys of (ys', r) \<Rightarrow> (xs' @ ys', r)))"
  by (induction xs) (auto split: prod.splits option.splits)

lemma update_tensors_length:
  "update_tensors S dims ts = (ts', r) \<Longrightarrow> length ts' = length ts"
  by (induction ts arbitrary: ts' r) (auto split: prod.splits option.splits)

lemma update_tensors_frame:
  "update_tensors S dims ts = (ts', r) \<Longrightarrow> map erase_dim_values ts' = map erase_dim_values ts"
proof (induction ts arbitrary: ts' r)
  case Nil
  then show ?case by simp
next
  case (Cons t ts)
  obtain t1 r1 where t1: "update_tensor S dims t = (t1, r1)" by (cases "update_tensor S dims t")
  obtain ts1 r2 where ts1: "update_tensors S dims ts = (ts1, r2)" by (cases "update_tensors S dims ts")
  from update_tensor_frame [OF t1] have e: "erase_dim_values t1 = erase_dim_values t" by simp
  from Cons.IH [OF ts1] have "map erase_dim_values ts1 = map erase_dim_values ts" .
  with Cons.prems t1 ts1 e show ?case by (cases r1) auto
qed

lemma update_tensor_missing:
  "dims (name t) = None \<Longrightarrow> update_tensor S dims t = (t, Some (KeyError (name t)))"
  by (simp add: update_tensor_def)

lemma update_tensor_fail:
  assumes "update_tensor S dims t = (t', Some e)"
  shows "(dims (name t) = None \<and> t' = t \<and> e = KeyError (name t))
       \<or> (\<exists>arr k. dims (name t) = Some arr \<and> k < length arr
             \<and> update_dims S t (name t) 0 (take k arr) = (t', None)
             \<and> update_dim S t' (arr ! k) k (name t) = Inl e)"
proof (cases "dims (name t)")
  case None
  with assms show ?thesis by (auto simp: update_tensor_def)
next
  case (Some arr)
  with assms have "update_dims S t (name t) 0 arr = (t', Some e)" by (simp add: update_tensor_def)
  from update_dims_fail [OF this] Some show ?thesis by auto
qed

lemma update_tensors_ok_nth:
  "update_tensors S dims ts = (ts', None) \<Longrightarrow> k < length ts \<Longrightarrow>
     update_tensor S dims (ts ! k) = (ts' ! k, None)"
proof (induction ts arbitrary: ts' k)
  case Nil
  then show ?case by simp
next
  case (Cons t ts)
  from Cons.prems(1) obtain t1 ts1 where t1: "update_tensor S dims t = (t1, None)"
    and ts1: "update_tensors S dims ts = (ts1, None)" and ts': "ts' = t1 # ts1"
    by (auto split: prod.splits option.splits)
  show ?case
  proof (cases k)
    case 0
    with t1 ts' show ?thesis by simp
  next
    case (Suc k')
    with Cons.prems(2) have "k' < length ts" by simp
    from Cons.IH [OF ts1 this] Suc ts' show ?thesis by simp
  qed
qed

lemma update_tensors_fail:
  "update_tensors S dims ts = (ts', Some e) \<Longrightarrow>
     \<exists>k < length ts. \<exists>t'. update_tensors S dims (take k ts) = (take k ts', None)
        \<and> update_tensor S dims (ts ! k) = (t', Some e)
        \<and> ts' = take k ts' @ t' # drop (Suc k) ts"
proof (induction ts arbitrary: ts')
  case Nil
  then show ?case by simp
next
  case (Cons t ts)
  obtain t1 r1 where t1: "update_tensor S dims t = (t1, r1)" by (cases "update_tensor S dims t")
  show ?case
  proof (cases r1)
    case (Some e1)
    with Cons.prems t1 have "ts' = t1 # ts" "e1 = e" by auto
    with t1 Some have "0 < length (t # ts)
        \<and> update_tensors S dims (take 0 (t # ts)) = (take 0 ts', None)
        \<and> update_tensor S dims ((t # ts) ! 0) = (t1, Some e)
        \<and> ts' = take 0 ts' @ t1 # drop (Suc 0) (t # ts)" by simp
    then show ?thesis by blast
  next
    case None
    obtain ts1 r2 where ts1: "update_tensors S dims ts = (ts1, r2)"
      by (cases "update_tensors S dims ts")
    with Cons.prems t1 None have r2: "r2 = Some e" and ts': "ts' = t1 # ts1" by auto
    from Cons.IH [OF ts1 [unfolded r2]] obtain k t' where k: "k < length ts"
      "update_tensors S dims (take k ts) = (take k ts1, None)"
      "update_tensor S dims (ts ! k) = (t', Some e)"
      "ts1 = take k ts1 @ t' # drop (Suc k) ts" by blast
    have "Suc k < length (t # ts)
        \<and> update_tensors S dims (take (Suc k) (t # ts)) = (take (Suc k) ts', None)
        \<and> update_tensor S dims ((t # ts) ! Suc k) = (t', Some e)
        \<and> ts' = take (Suc k) ts' @ t' # drop (Suc (Suc k)) (t # ts)"
      using k t1 None ts' by simp
    then show ?thesis by blast
  qed
qed

lemma update_tensors_fail_mem:
  assumes "update_tensors S dims ts = (ts', Some e)"
  shows "\<exists>t \<in> set ts. \<exists>t'. update_tensor S dims t = (t', Some e)"
proof -
  from update_tensors_fail [OF assms] obtain k t' where "k < length ts"
    "update_tensor S dims (ts ! k) = (t', Some e)" by blast
  then show ?thesis using nth_mem by blast
qed

lemma update_tensors_missing:
  "k < length ts \<Longrightarrow> dims (name (ts ! k)) = None \<Longrightarrow> update_tensors S dims ts = (ts', r) \<Longrightarrow>
     (\<exists>e. r = Some e) \<and> ts' ! k = ts ! k
     \<and> (snd (update_tensors S dims (take k ts)) = None \<longrightarrow> r = Some (KeyError (name (ts ! k))))"
proof (induction ts arbitrary: ts' k r)
  case Nil
  then show ?case by simp
next
  case (Cons t ts)
  show ?case
  proof (cases k)
    case 0
    with Cons.prems(2) have "update_tensor S dims t = (t, Some (KeyError (name t)))"
      by (simp add: update_tensor_missing)
    with Cons.prems(3) 0 show ?thesis by auto
  next
    case (Suc k')
    with Cons.prems have k': "k' < length ts" and miss: "dims (name (ts ! k')) = None" by simp_all
    obtain t1 r1 where t1: "update_tensor S dims t = (t1, r1)" by (cases "update_tensor S dims t")
    show ?thesis
    proof (cases r1)
      case (Some e1)
      with Cons.prems(3) t1 Suc show ?thesis by auto
    next
      case None
      obtain ts1 r2 where ts1: "update_tensors S dims ts = (ts1, r2)"
        by (cases "update_tensors S dims ts")
      from Cons.IH [OF k' miss ts1] Cons.prems(3) t1 None ts1 Suc show ?thesis
        by (auto split: prod.splits)
    qed
  qed
qed


lemma update_inputs_outputs_dims_state:
  "fst (update_inputs_outputs_dims chk model input_dims output_dims) =
     (case update_tensors (dim_param_set_of model) input_dims (graph_input model) of
        (ins, Some e) \<Rightarrow> model\<lparr>graph_input := ins\<rparr>
      | (ins, None) \<Rightarrow>
          model\<lparr>graph_input := ins,
            graph_output := fst (update_tensors (dim_param_set_of model) output_dims (graph_output model))\<rparr>)"
  unfolding update_inputs_outputs_dims_def Let_def
  by (auto split: prod.splits option.splits)

lemma name_erase [simp]: "name (erase_dim_values t) = name t"
  by (simp add: erase_dim_values_def)

lemma map_name_of_erase:
  assumes "map erase_dim_values ts' = map erase_dim_values ts"
  shows "map name ts' = map name ts"
proof -
  have "map name (map erase_dim_values ts') = map name (map erase_dim_values ts)"
    using assms by simp
  then show ?thesis by (simp add: comp_def)
qed

lemma result_inputs_fail:
  "update_tensors (dim_param_set_of model) input_dims (graph_input model) = (ins, Some e) \<Longrightarrow>
     update_inputs_outputs_dims chk model input_dims output_dims
       = (model\<lparr>graph_input := ins\<rparr>, Inl e)"
  by (simp add: update_inputs_outputs_dims_def)

lemma result_outputs_fail:
  "update_tensors (dim_param_set_of model) input_dims (graph_input model) = (ins, None) \<Longrightarrow>
   update_tensors (dim_param_set_of model) output_dims (graph_output model) = (outs, Some e) \<Longrightarrow>
     update_inputs_outputs_dims chk model input_dims output_dims
       = (model\<lparr>graph_input := ins, graph_output := outs\<rparr>, Inl e)"
  by (simp add: update_inputs_outputs_dims_def)

lemma result_checked:
  "update_tensors (dim_param_set_of model) input_dims (graph_input model) = (ins, None) \<Longrightarrow>
   update_tensors (dim_param_set_of model) output_dims (graph_output model) = (outs, None) \<Longrightarrow>
     update_inputs_outputs_dims chk model input_dims output_dims
       = (model\<lparr>graph_input := ins, graph_output := outs\<rparr>,
          if chk (model\<lparr>graph_input := ins, graph_output := outs\<rparr>) then Inr ()
          else Inl ValidationError)"
  by (simp add: update_inputs_outputs_dims_def)

lemma update_dim_not_ValidationError: "update_dim S t dim j nm \<noteq> Inl ValidationError"
  by (auto simp: update_dim_def Let_def split: option.splits dim_oneof.splits pyval.splits)

lemma update_tensor_not_ValidationError:
  assumes "update_tensor S dims t = (t', Some e)" shows "e \<noteq> ValidationError"
proof
  assume "e = ValidationError"
  with update_tensor_fail [OF assms] obtain arr k where
    "update_dim S t' (arr ! k) k (name t) = Inl ValidationError" by auto
  then show False by (simp add: update_dim_not_ValidationError)
qed

lemma update_tensors_not_ValidationError:
  assumes "update_tensors S dims ts = (ts', Some e)" shows "e \<noteq> ValidationError"
proof -
  from update_tensors_fail_mem [OF assms] obtain t t' where
    t: "t \<in> set ts" "update_tensor S dims t = (t', Some e)" by auto
  from t(2) show ?thesis by (rule update_tensor_not_ValidationError)
qed

lemma update_tensor_ok:
  assumes "update_tensor S dims t = (t', None)"
  shows "\<exists>arr. dims (name t) = Some arr \<and> length arr \<le> length (shape_dim t)
           \<and> (\<forall>i. length arr \<le> i \<longrightarrow> shape_dim t' ! i = shape_dim t ! i)"
proof (cases "dims (name t)")
  case None
  with assms show ?thesis by (simp add: update_tensor_def)
next
  case (Some arr)
  with assms have run: "update_dims S t (name t) 0 arr = (t', None)"
    by (simp add: update_tensor_def)
  have "length arr \<le> length (shape_dim t)"
    using update_dims_ok_length [OF run] by (cases arr) simp_all
  moreover have "shape_dim t' ! i = shape_dim t ! i" if "length arr \<le> i" for i
    using update_dims_untouched [OF run, of i] that by simp
  ultimately show ?thesis using Some by simp
qed

lemma update_tensors_ok_all:
  assumes "update_tensors S dims ts = (ts', None)" and "k < length ts"
  shows "\<exists>arr. dims (name (ts ! k)) = Some arr \<and> length arr \<le> length (shape_dim (ts ! k))
           \<and> (\<forall>i. length arr \<le> i \<longrightarrow> shape_dim (ts' ! k) ! i = shape_dim (ts ! k) ! i)"
  using update_tensors_ok_nth [OF assms] by (rule update_tensor_ok)

lemma update_tensor_IndexError:
  assumes "update_tensor S dims t = (t', Some IndexError)"
  shows "\<exists>arr. dims (name t) = Some arr \<and> length (shape_dim t) < length arr"
proof (cases "dims (name t)")
  case None
  with assms show ?thesis by (simp add: update_tensor_def)
next
  case (Some arr)
  with assms have "update_dims S t (name t) 0 arr = (t', Some IndexError)"
    by (simp add: update_tensor_def)
  from update_dims_IndexError [OF this] Some show ?thesis by simp
qed

lemma update_tensors_IndexError:
  assumes "update_tensors S dims ts = (ts', Some IndexError)"
  shows "\<exists>t \<in> set ts. \<exists>arr. dims (name t) = Some arr \<and> length (shape_dim t) < length arr"
proof -
  from update_tensors_fail_mem [OF assms] obtain t t' where t: "t \<in> set ts"
    and "update_tensor S dims t = (t', Some IndexError)" by blast
  from update_tensor_IndexError [OF this(2)] t show ?thesis by blast
qed

lemma update_tensor_surplus:
  assumes "dims (name t) = Some arr" and "length (shape_dim t) < length arr"
    and "update_dims S t (name t) 0 (take (length (shape_dim t)) arr) = (t1, None)"
  shows "update_tensor S dims t = (t1, Some IndexError)"
proof -
  let ?n = "length (shape_dim t)"
  have split: "arr = take ?n arr @ arr ! ?n # drop (Suc ?n) arr"
    using assms(2) by (rule id_take_nth_drop)
  have len: "length (shape_dim t1) = ?n"
    using update_dims_frame [OF assms(3)] by simp
  have "update_dim S t1 (arr ! ?n) ?n (name t) = Inl IndexError"
    using len by (simp add: update_dim_IndexError)
  then have "update_dims S t1 (name t) ?n (arr ! ?n # drop (Suc ?n) arr) = (t1, Some IndexError)"
    by simp
  moreover have "length (take ?n arr) = ?n" using assms(2) by simp
  ultimately have "update_dims S t (name t) 0 (take ?n arr @ arr ! ?n # drop (Suc ?n) arr)
      = (t1, Some IndexError)"
    using assms(3) by (simp add: update_dims_append)
  with split have "update_dims S t (name t) 0 arr = (t1, Some IndexError)" by simp
  with assms(1) show ?thesis by (simp add: update_tensor_def)
qed

text \<open>The equations that evaluate a call on a concrete model.\<close>

lemmas run_defs =
  update_inputs_outputs_dims_def dim_param_set_of_def init_dim_param_set_def add_dim_param_def
  update_tensor_def update_dim_def set_dim_def generated_dim_param_def str.simps digit_char_def
  make_tensor_value_info_def make_model_def accept_all_def Let_def

subsection \<open>The axis-update rule\<close>

text \<open>
  \<open>update_dim\<close> is what the call applies to an axis when its loops reach it; none of its
  exceptions is caught inside \<open>update_inputs_outputs_dims\<close>, so its failure is the
  failure of the call.
\<close>











subsection \<open>The loops over the tensors\<close>

text \<open>
  C4, as stated, fails: the input \<open>b\<close> has no entry in \<open>input_dims\<close>, yet the call
  fails with the contradiction \<open>ValueError\<close> raised for the input \<open>a\<close> before it, not
  with a \<open>KeyError\<close>.
\<close>

theorem lookup_failure_preempted:
  "name (graph_input preempted_model ! 1) = ''b''
   \<and> preempted_input_dims ''b'' = None
   \<and> update_inputs_outputs_dims accept_all preempted_model preempted_input_dims Map.empty
     = (preempted_model, Inl (ValueError_contradicts (PyInt 4) 0 ''a'' 3))"
  by (simp add: run_defs preempted_model_def preempted_input_dims_def)

text \<open>
  C4, amended. If the tensor at position \<open>k\<close> of the inputs (of the outputs) has no
  entry in \<open>input_dims\<close> (\<open>output_dims\<close>), the call fails, and that tensor is in the
  final model as it was on entry; the failure is the \<open>KeyError\<close> for its name whenever
  the updates of the tensors before it (for an output: of all inputs and of the outputs
  before it) raise nothing.
\<close>

theorem missing_entry_fails:
  assumes "update_inputs_outputs_dims chk model input_dims output_dims = (model', res)"
  shows "(\<forall>k < length (graph_input model). input_dims (name (graph_input model ! k)) = None \<longrightarrow>
            (\<exists>e. res = Inl e) \<and> graph_input model' ! k = graph_input model ! k
            \<and> (snd (update_tensors (dim_param_set_of model) input_dims
                      (take k (graph_input model))) = None
                 \<longrightarrow> res = Inl (KeyError (name (graph_input model ! k)))))
       \<and> (\<forall>k < length (graph_output model). output_dims (name (graph_output model ! k)) = None \<longrightarrow>
            (\<exists>e. res = Inl e) \<and> graph_output model' ! k = graph_output model ! k
            \<and> (snd (update_tensors (dim_param_set_of model) input_dims (graph_input model)) = None
                 \<and> snd (update_tensors (dim_param_set_of model) output_dims
                      (take k (graph_output model))) = None
                 \<longrightarrow> res = Inl (KeyError (name (graph_output model ! k)))))"
proof -
  let ?S = "dim_param_set_of model"
  have inputs: "(\<exists>e. res = Inl e) \<and> graph_input model' ! k = graph_input model ! k
            \<and> (snd (update_tensors ?S input_dims (take k (graph_input model))) = None
                 \<longrightarrow> res = Inl (KeyError (name (graph_input model ! k))))"
    if k: "k < length (graph_input model)" and miss: "input_dims (name (graph_input model ! k)) = None"
    for k
  proof -
    obtain ins r1 where ins: "update_tensors ?S input_dims (graph_input model) = (ins, r1)"
      by (cases "update_tensors ?S input_dims (graph_input model)")
    note M = update_tensors_missing [OF k miss ins]
    from M [THEN conjunct1] obtain e where e: "r1 = Some e" ..
    have same: "ins ! k = graph_input model ! k"
      by (rule M [THEN conjunct2, THEN conjunct1])
    have key: "snd (update_tensors ?S input_dims (take k (graph_input model))) = None
                 \<longrightarrow> r1 = Some (KeyError (name (graph_input model ! k)))"
      by (rule M [THEN conjunct2, THEN conjunct2])
    from result_inputs_fail [OF ins [unfolded e], of chk output_dims] assms
    have "model' = model\<lparr>graph_input := ins\<rparr>" "res = Inl e" by simp_all
    with same key e show ?thesis by simp
  qed
  have outputs: "(\<exists>e. res = Inl e) \<and> graph_output model' ! k = graph_output model ! k
            \<and> (snd (update_tensors ?S input_dims (graph_input model)) = None
                 \<and> snd (update_tensors ?S output_dims (take k (graph_output model))) = None
                 \<longrightarrow> res = Inl (KeyError (name (graph_output model ! k))))"
    if k: "k < length (graph_output model)" and miss: "output_dims (name (graph_output model ! k)) = None"
    for k
  proof -
    obtain ins r1 where ins: "update_tensors ?S input_dims (graph_input model) = (ins, r1)"
      by (cases "update_tensors ?S input_dims (graph_input model)")
    obtain outs r2 where outs: "update_tensors ?S output_dims (graph_output model) = (outs, r2)"
      by (cases "update_tensors ?S output_dims (graph_output model)")
    note M = update_tensors_missing [OF k miss outs]
    from M [THEN conjunct1] obtain e where e: "r2 = Some e" ..
    have same: "outs ! k = graph_output model ! k"
      by (rule M [THEN conjunct2, THEN conjunct1])
    have key: "snd (update_tensors ?S output_dims (take k (graph_output model))) = None
                 \<longrightarrow> r2 = Some (KeyError (name (graph_output model ! k)))"
      by (rule M [THEN conjunct2, THEN conjunct2])
    show ?thesis
    proof (cases r1)
      case (Some e1)
      from result_inputs_fail [OF ins [unfolded Some], of chk output_dims] assms
      have "model' = model\<lparr>graph_input := ins\<rparr>" "res = Inl e1" by simp_all
      with ins Some show ?thesis by simp
    next
      case None
      from result_outputs_fail [OF ins [unfolded None] outs [unfolded e], of chk] assms
      have "model' = model\<lparr>graph_input := ins, graph_output := outs\<rparr>" "res = Inl e"
        by simp_all
      with same key e show ?thesis by simp
    qed
  qed
  from inputs outputs show ?thesis by blast
qed

text \<open>
  The input \<open>a\<close> is updated, the lookup for \<open>b\<close> raises \<open>KeyError\<close>, and \<open>b\<close> is
  untouched.
\<close>

theorem missing_entry_fails_witness:
  "missing_input_dims ''b'' = None
   \<and> snd (update_inputs_outputs_dims accept_all missing_model missing_input_dims Map.empty)
       = Inl (KeyError ''b'')
   \<and> graph_input (fst (update_inputs_outputs_dims accept_all missing_model missing_input_dims
         Map.empty)) ! 1 = make_tensor_value_info ''b'' [Dim_param ''n''] ()
   \<and> graph_input (fst (update_inputs_outputs_dims accept_all missing_model missing_input_dims
         Map.empty)) ! 0 = make_tensor_value_info ''a'' [Dim_param ''batch''] ()"
proof -
  let ?R = "update_inputs_outputs_dims accept_all missing_model missing_input_dims Map.empty"
  have k: "1 < length (graph_input missing_model)"
    by (simp add: missing_model_def make_model_def)
  have b: "graph_input missing_model ! 1 = make_tensor_value_info ''b'' [Dim_param ''n''] ()"
    by (simp add: missing_model_def make_model_def)
  have m: "missing_input_dims (name (graph_input missing_model ! 1)) = None"
    unfolding b by (simp add: missing_input_dims_def make_tensor_value_info_def)
  have p: "snd (update_tensors (dim_param_set_of missing_model) missing_input_dims
             (take 1 (graph_input missing_model))) = None"
    by (simp add: run_defs missing_model_def missing_input_dims_def)
  have r: "?R = (fst ?R, snd ?R)" by simp
  note T = missing_entry_fails [OF r, THEN conjunct1, rule_format, OF k m]
  from T [THEN conjunct2, THEN conjunct2] p
  have "snd ?R = Inl (KeyError (name (graph_input missing_model ! 1)))" by (rule mp)
  moreover note T [THEN conjunct2, THEN conjunct1]
  moreover have "graph_input (fst ?R) ! 0 = make_tensor_value_info ''a'' [Dim_param ''batch''] ()"
    by (simp add: run_defs missing_model_def missing_input_dims_def)
  ultimately show ?thesis using m unfolding b by (simp add: make_tensor_value_info_def)
qed

text \<open>
  C6, as stated, fails: one entry is supplied for a tensor with two axes, and no
  out-of-range access follows; the first axis is updated, the second is left as it was,
  and the call returns or not as the validator decides.
\<close>

theorem fewer_entries_accepted:
  "short_list_dims ''x'' = Some [PyStr ''batch'']
   \<and> map name (graph_input short_list_model) = [''x'']
   \<and> length (shape_dim (graph_input short_list_model ! 0)) = 2
   \<and> update_inputs_outputs_dims accept_all short_list_model short_list_dims Map.empty
     = (make_model [make_tensor_value_info ''x'' [Dim_param ''batch'', Dim_value 3] ()] [] [] (),
        Inr ())
   \<and> update_inputs_outputs_dims reject_all short_list_model short_list_dims Map.empty
     = (make_model [make_tensor_value_info ''x'' [Dim_param ''batch'', Dim_value 3] ()] [] [] (),
        Inl ValidationError)"
  by (simp add: run_defs reject_all_def short_list_model_def short_list_dims_def)

text \<open>
  C6, amended. No count is validated. When the call gets as far as the validator, every
  input and output tensor had an entry with at most as many values as the tensor has
  axes, and the axes beyond the supplied values are as they were on entry. An
  \<open>IndexError\<close> arises only if some input or output tensor has more values than axes.
  For a tensor with more values than axes, once the updates of its existing axes have
  succeeded its loop ends with \<open>IndexError\<close>, these axes updated.
\<close>

theorem axis_count_mismatch:
  assumes "update_inputs_outputs_dims chk model input_dims output_dims = (model', res)"
  shows "(res = Inr () \<or> res = Inl ValidationError \<longrightarrow>
            (\<forall>k < length (graph_input model).
               \<exists>arr. input_dims (name (graph_input model ! k)) = Some arr
                 \<and> length arr \<le> length (shape_dim (graph_input model ! k))
                 \<and> (\<forall>i. length arr \<le> i \<longrightarrow>
                       shape_dim (graph_input model' ! k) ! i = shape_dim (graph_input model ! k) ! i))
          \<and> (\<forall>k < length (graph_output model).
               \<exists>arr. output_dims (name (graph_output model ! k)) = Some arr
                 \<and> length arr \<le> length (shape_dim (graph_output model ! k))
                 \<and> (\<forall>i. length arr \<le> i \<longrightarrow>
                       shape_dim (graph_output model' ! k) ! i = shape_dim (graph_output model ! k) ! i)))
       \<and> (res = Inl IndexError \<longrightarrow>
            (\<exists>t \<in> set (graph_input model).
               \<exists>arr. input_dims (name t) = Some arr \<and> length (shape_dim t) < length arr)
          \<or> (\<exists>t \<in> set (graph_output model).
               \<exists>arr. output_dims (name t) = Some arr \<and> length (shape_dim t) < length arr))
       \<and> (\<forall>S dims (t :: 'v value_info_proto) arr t1.
             dims (name t) = Some arr \<and> length (shape_dim t) < length arr
             \<and> update_dims S t (name t) 0 (take (length (shape_dim t)) arr) = (t1, None)
            \<longrightarrow> update_tensor S dims t = (t1, Some IndexError))"
proof -
  let ?S = "dim_param_set_of model"
  obtain ins r1 where ins: "update_tensors ?S input_dims (graph_input model) = (ins, r1)"
    by (cases "update_tensors ?S input_dims (graph_input model)")
  obtain outs r2 where outs: "update_tensors ?S output_dims (graph_output model) = (outs, r2)"
    by (cases "update_tensors ?S output_dims (graph_output model)")
  have A: "(\<forall>k < length (graph_input model).
               \<exists>arr. input_dims (name (graph_input model ! k)) = Some arr
                 \<and> length arr \<le> length (shape_dim (graph_input model ! k))
                 \<and> (\<forall>i. length arr \<le> i \<longrightarrow>
                       shape_dim (graph_input model' ! k) ! i = shape_dim (graph_input model ! k) ! i))
          \<and> (\<forall>k < length (graph_output model).
               \<exists>arr. output_dims (name (graph_output model ! k)) = Some arr
                 \<and> length arr \<le> length (shape_dim (graph_output model ! k))
                 \<and> (\<forall>i. length arr \<le> i \<longrightarrow>
                       shape_dim (graph_output model' ! k) ! i = shape_dim (graph_output model ! k) ! i))"
    if fin: "res = Inr () \<or> res = Inl ValidationError"
  proof (cases r1)
    case (Some e)
    from result_inputs_fail [OF ins [unfolded Some], of chk output_dims] assms
    have "res = Inl e" by simp
    moreover have "e \<noteq> ValidationError"
      using ins [unfolded Some] by (rule update_tensors_not_ValidationError)
    ultimately have False using fin by simp
    then show ?thesis ..
  next
    case r1: None
    show ?thesis
    proof (cases r2)
      case (Some e)
      from result_outputs_fail [OF ins [unfolded r1] outs [unfolded Some], of chk] assms
      have "res = Inl e" by simp
      moreover have "e \<noteq> ValidationError"
        using outs [unfolded Some] by (rule update_tensors_not_ValidationError)
      ultimately have False using fin by simp
      then show ?thesis ..
    next
      case r2: None
      from result_checked [OF ins [unfolded r1] outs [unfolded r2], of chk] assms
      have m': "model' = model\<lparr>graph_input := ins, graph_output := outs\<rparr>" by simp
      have a: "\<forall>k < length (graph_input model).
               \<exists>arr. input_dims (name (graph_input model ! k)) = Some arr
                 \<and> length arr \<le> length (shape_dim (graph_input model ! k))
                 \<and> (\<forall>i. length arr \<le> i \<longrightarrow>
                       shape_dim (graph_input model' ! k) ! i = shape_dim (graph_input model ! k) ! i)"
        using update_tensors_ok_all [OF ins [unfolded r1]] by (simp add: m')
      have b: "\<forall>k < length (graph_output model).
               \<exists>arr. output_dims (name (graph_output model ! k)) = Some arr
                 \<and> length arr \<le> length (shape_dim (graph_output model ! k))
                 \<and> (\<forall>i. length arr \<le> i \<longrightarrow>
                       shape_dim (graph_output model' ! k) ! i = shape_dim (graph_output model ! k) ! i)"
        using update_tensors_ok_all [OF outs [unfolded r2]] by (simp add: m')
      from a b show ?thesis by (rule conjI)
    qed
  qed
  have B: "(\<exists>t \<in> set (graph_input model).
               \<exists>arr. input_dims (name t) = Some arr \<and> length (shape_dim t) < length arr)
          \<or> (\<exists>t \<in> set (graph_output model).
               \<exists>arr. output_dims (name t) = Some arr \<and> length (shape_dim t) < length arr)"
    if ie: "res = Inl IndexError"
  proof (cases r1)
    case (Some e)
    from result_inputs_fail [OF ins [unfolded Some], of chk output_dims] assms ie
    have "e = IndexError" by simp
    with ins Some have "update_tensors ?S input_dims (graph_input model) = (ins, Some IndexError)"
      by simp
    then show ?thesis by (rule update_tensors_IndexError [THEN disjI1])
  next
    case r1: None
    show ?thesis
    proof (cases r2)
      case (Some e)
      from result_outputs_fail [OF ins [unfolded r1] outs [unfolded Some], of chk] assms ie
      have "e = IndexError" by simp
      with outs Some have "update_tensors ?S output_dims (graph_output model) = (outs, Some IndexError)"
        by simp
      then show ?thesis by (rule update_tensors_IndexError [THEN disjI2])
    next
      case r2: None
      from result_checked [OF ins [unfolded r1] outs [unfolded r2], of chk] assms ie
      have False by (simp split: if_splits)
      then show ?thesis ..
    qed
  qed
  have C: "\<forall>S dims (t :: 'v value_info_proto) arr t1.
             dims (name t) = Some arr \<and> length (shape_dim t) < length arr
             \<and> update_dims S t (name t) 0 (take (length (shape_dim t)) arr) = (t1, None)
            \<longrightarrow> update_tensor S dims t = (t1, Some IndexError)"
    by (intro allI impI, elim conjE, rule update_tensor_surplus)
  show ?thesis
    apply (intro conjI)
      apply (rule impI, erule A)
     apply (rule impI, erule B)
    apply (rule C)
    done
qed

text \<open>
  Three values for a tensor with two axes: both axes are updated, then the third
  subscript raises \<open>IndexError\<close>.
\<close>

theorem axis_count_mismatch_witness:
  "update_tensor {} long_list_dims (make_tensor_value_info ''x'' [Dim_value 2, Dim_value 3] ())
     = (make_tensor_value_info ''x'' [Dim_param ''batch'', Dim_value 3] (), Some IndexError)
   \<and> update_inputs_outputs_dims accept_all short_list_model long_list_dims Map.empty
     = (make_model [make_tensor_value_info ''x'' [Dim_param ''batch'', Dim_value 3] ()] [] [] (),
        Inl IndexError)"
proof -
  let ?R = "update_inputs_outputs_dims accept_all short_list_model long_list_dims Map.empty"
  let ?t = "make_tensor_value_info ''x'' [Dim_value 2, Dim_value 3] ()"
  let ?t1 = "make_tensor_value_info ''x'' [Dim_param ''batch'', Dim_value 3] ()"
  have r: "?R = (fst ?R, snd ?R)" by simp
  have p: "long_list_dims (name ?t) = Some [PyStr ''batch'', PyInt 3, PyInt 7]
      \<and> length (shape_dim ?t) < length [PyStr ''batch'', PyInt 3, PyInt 7]
      \<and> update_dims {} ?t (name ?t) 0
            (take (length (shape_dim ?t)) [PyStr ''batch'', PyInt 3, PyInt 7]) = (?t1, None)"
    by (simp add: run_defs long_list_dims_def)
  note T = axis_count_mismatch [OF r, THEN conjunct2, THEN conjunct2, rule_format]
  have "update_tensor {} long_list_dims ?t = (?t1, Some IndexError)"
    by (rule T) (rule p)
  moreover have "?R = (make_model [?t1] [] [] (), Inl IndexError)"
    by (simp add: run_defs short_list_model_def long_list_dims_def)
  ultimately show ?thesis by (rule conjI)
qed

subsection \<open>The call\<close>

text \<open>
  C5. The call works on the object the argument refers to. On success the reference
  returned is the argument; no other object of the store is written. The state of the
  object at the end of the call is the same whatever the validator answers: it is what
  the two loops left, with the outputs untouched if the loop over the inputs raised.
  When a loop over tensors raises at position \<open>k\<close>, the tensors before \<open>k\<close> are as their
  completed updates left them, the tensor at \<open>k\<close> is as its interrupted update left it
  and the tensors after \<open>k\<close> are untouched; when the update of a tensor raises, either
  the lookup failed and the tensor is untouched, or the axes before the failing one are
  updated and stay so.
\<close>

theorem in_place_no_rollback:
  assumes "update_inputs_outputs_dims_call chk store r input_dims output_dims = (store', res)"
  shows "(\<forall>r'. res = Inr r' \<longrightarrow> r' = r)
       \<and> (\<forall>r'. r' \<noteq> r \<longrightarrow> store' r' = store r')
       \<and> (\<forall>chk'. store' r = fst (update_inputs_outputs_dims chk' (store r) input_dims output_dims))
       \<and> store' r =
           (case update_tensors (dim_param_set_of (store r)) input_dims (graph_input (store r)) of
              (ins, Some e) \<Rightarrow> (store r)\<lparr>graph_input := ins\<rparr>
            | (ins, None) \<Rightarrow>
                (store r)\<lparr>graph_input := ins,
                  graph_output := fst (update_tensors (dim_param_set_of (store r)) output_dims
                                        (graph_output (store r)))\<rparr>)
       \<and> (\<forall>S dims (ts :: 'v value_info_proto list) ts' e.
             update_tensors S dims ts = (ts', Some e) \<longrightarrow>
               (\<exists>k < length ts. \<exists>t'. update_tensors S dims (take k ts) = (take k ts', None)
                  \<and> update_tensor S dims (ts ! k) = (t', Some e)
                  \<and> ts' = take k ts' @ t' # drop (Suc k) ts))
       \<and> (\<forall>S dims (t :: 'v value_info_proto) t' e.
             update_tensor S dims t = (t', Some e) \<longrightarrow>
               (dims (name t) = None \<and> t' = t \<and> e = KeyError (name t))
             \<or> (\<exists>arr k. dims (name t) = Some arr \<and> k < length arr
                   \<and> update_dims S t (name t) 0 (take k arr) = (t', None)
                   \<and> update_dim S t' (arr ! k) k (name t) = Inl e))"
proof -
  let ?R = "update_inputs_outputs_dims chk (store r) input_dims output_dims"
  obtain m' res0 where R: "?R = (m', res0)" by (cases ?R)
  from assms R have store': "store' = store(r := m')"
    and res: "res = (case res0 of Inl e \<Rightarrow> Inl e | Inr u \<Rightarrow> Inr r)"
    by (simp_all add: update_inputs_outputs_dims_call_def split: sum.splits)
  have m': "m' = fst ?R" using R by simp
  have st: "fst (update_inputs_outputs_dims c (store r) input_dims output_dims) =
           (case update_tensors (dim_param_set_of (store r)) input_dims (graph_input (store r)) of
              (ins, Some e) \<Rightarrow> (store r)\<lparr>graph_input := ins\<rparr>
            | (ins, None) \<Rightarrow>
                (store r)\<lparr>graph_input := ins,
                  graph_output := fst (update_tensors (dim_param_set_of (store r)) output_dims
                                        (graph_output (store r)))\<rparr>)" for c
    by (rule update_inputs_outputs_dims_state)
  have c1: "\<forall>r'. res = Inr r' \<longrightarrow> r' = r"
    using res by (cases res0) simp_all
  have c2: "\<forall>r'. r' \<noteq> r \<longrightarrow> store' r' = store r'"
    by (simp add: store')
  have c4: "store' r =
           (case update_tensors (dim_param_set_of (store r)) input_dims (graph_input (store r)) of
              (ins, Some e) \<Rightarrow> (store r)\<lparr>graph_input := ins\<rparr>
            | (ins, None) \<Rightarrow>
                (store r)\<lparr>graph_input := ins,
                  graph_output := fst (update_tensors (dim_param_set_of (store r)) output_dims
                                        (graph_output (store r)))\<rparr>)"
    using st [of chk] by (simp add: store' m')
  have c3: "\<forall>chk'. store' r = fst (update_inputs_outputs_dims chk' (store r) input_dims output_dims)"
    unfolding st c4 by simp
  have c5: "\<forall>S dims (ts :: 'v value_info_proto list) ts' e.
             update_tensors S dims ts = (ts', Some e) \<longrightarrow>
               (\<exists>k < length ts. \<exists>t'. update_tensors S dims (take k ts) = (take k ts', None)
                  \<and> update_tensor S dims (ts ! k) = (t', Some e)
                  \<and> ts' = take k ts' @ t' # drop (Suc k) ts)"
    by (intro allI impI) (rule update_tensors_fail)
  have c6: "\<forall>S dims (t :: 'v value_info_proto) t' e.
             update_tensor S dims t = (t', Some e) \<longrightarrow>
               (dims (name t) = None \<and> t' = t \<and> e = KeyError (name t))
             \<or> (\<exists>arr k. dims (name t) = Some arr \<and> k < length arr
                   \<and> update_dims S t (name t) 0 (take k arr) = (t', None)
                   \<and> update_dim S t' (arr ! k) k (name t) = Inl e)"
    by (intro allI impI) (rule update_tensor_fail)
  show ?thesis
    apply (intro conjI)
         apply (rule c1)
        apply (rule c2)
       apply (rule c3)
      apply (rule c4)
     apply (rule c5)
    apply (rule c6)
    done
qed

text \<open>
  The first axis of \<open>x\<close> is renamed, the second contradicts: the call raises and the
  object keeps the new name of the first axis; another object of the store is untouched.
\<close>

theorem in_place_no_rollback_witness:
  "fst (update_inputs_outputs_dims_call accept_all (\<lambda>_. partial_model) 0 partial_dims Map.empty) 0
     = make_model [make_tensor_value_info ''x'' [Dim_param ''batch'', Dim_value 3] ()] [] [] ()
   \<and> fst (update_inputs_outputs_dims_call accept_all (\<lambda>_. partial_model) 0 partial_dims Map.empty) 1
     = partial_model
   \<and> snd (update_inputs_outputs_dims_call accept_all (\<lambda>_. partial_model) 0 partial_dims Map.empty)
     = Inl (ValueError_contradicts (PyInt 4) 1 ''x'' 3)"
proof -
  let ?C = "update_inputs_outputs_dims_call accept_all (\<lambda>_. partial_model) 0 partial_dims Map.empty"
  have r: "?C = (fst ?C, snd ?C)" by simp
  note T = in_place_no_rollback [OF r]
  have run: "update_inputs_outputs_dims accept_all partial_model partial_dims Map.empty
      = (make_model [make_tensor_value_info ''x'' [Dim_param ''batch'', Dim_value 3] ()] [] [] (),
         Inl (ValueError_contradicts (PyInt 4) 1 ''x'' 3))"
    by (simp add: run_defs partial_model_def partial_dims_def)
  from T [THEN conjunct2, THEN conjunct2, THEN conjunct1, rule_format, of accept_all]
  have "fst ?C 0 = make_model [make_tensor_value_info ''x'' [Dim_param ''batch'', Dim_value 3] ()] [] [] ()"
    by (simp add: run)
  moreover from T [THEN conjunct2, THEN conjunct1, rule_format, of 1]
  have "fst ?C 1 = partial_model" by simp
  moreover have "snd ?C = Inl (ValueError_contradicts (PyInt 4) 1 ''x'' 3)"
    by (simp add: update_inputs_outputs_dims_call_def run)
  ultimately show ?thesis by (intro conjI)
qed

text \<open>
  C9. Whether the call returns or raises, the value-info tensors and the rest of the
  model are as on entry, and the inputs and outputs differ from those on entry at most
  in the oneof values of their axes: same tensors in the same order, same names, same
  other fields, same number of axes, same \<open>denotation\<close>.
\<close>

theorem rest_of_model_unchanged:
  assumes "update_inputs_outputs_dims chk model input_dims output_dims = (model', res)"
  shows "graph_value_info model' = graph_value_info model
       \<and> model_other model' = model_other model
       \<and> map erase_dim_values (graph_input model') = map erase_dim_values (graph_input model)
       \<and> map erase_dim_values (graph_output model') = map erase_dim_values (graph_output model)
       \<and> map name (graph_input model') = map name (graph_input model)
       \<and> map name (graph_output model') = map name (graph_output model)"
proof -
  let ?S = "dim_param_set_of model"
  obtain ins r1 where ins: "update_tensors ?S input_dims (graph_input model) = (ins, r1)"
    by (cases "update_tensors ?S input_dims (graph_input model)")
  obtain outs r2 where outs: "update_tensors ?S output_dims (graph_output model) = (outs, r2)"
    by (cases "update_tensors ?S output_dims (graph_output model)")
  have i: "map erase_dim_values ins = map erase_dim_values (graph_input model)"
    using ins by (rule update_tensors_frame)
  have o: "map erase_dim_values outs = map erase_dim_values (graph_output model)"
    using outs by (rule update_tensors_frame)
  have m: "model' = (case r1 of Some e \<Rightarrow> model\<lparr>graph_input := ins\<rparr>
                     | None \<Rightarrow> model\<lparr>graph_input := ins, graph_output := outs\<rparr>)"
    using update_inputs_outputs_dims_state [of chk model input_dims output_dims] assms ins outs
    by (simp split: option.splits)
  have e: "graph_value_info model' = graph_value_info model
       \<and> model_other model' = model_other model
       \<and> map erase_dim_values (graph_input model') = map erase_dim_values (graph_input model)
       \<and> map erase_dim_values (graph_output model') = map erase_dim_values (graph_output model)"
    using i o by (cases r1) (simp_all add: m)
  moreover from e have "map name (graph_input model') = map name (graph_input model)"
    by (intro map_name_of_erase) simp
  moreover from e have "map name (graph_output model') = map name (graph_output model)"
    by (intro map_name_of_erase) simp
  ultimately show ?thesis by simp
qed

text \<open>A call that raises leaves the value-info tensor and the input's name in place.\<close>

theorem rest_of_model_unchanged_witness:
  "graph_value_info (fst (update_inputs_outputs_dims accept_all taken_name_model shared_name_dims
       Map.empty)) = [make_tensor_value_info ''hidden'' [Dim_param ''x_0''] ()]
   \<and> map name (graph_input (fst (update_inputs_outputs_dims accept_all taken_name_model
       shared_name_dims Map.empty))) = [''x'']"
proof -
  let ?R = "update_inputs_outputs_dims accept_all taken_name_model shared_name_dims Map.empty"
  have r: "?R = (fst ?R, snd ?R)" by simp
  note T = rest_of_model_unchanged [OF r]
  from T [THEN conjunct1]
  have "graph_value_info (fst ?R) = [make_tensor_value_info ''hidden'' [Dim_param ''x_0''] ()]"
    by (simp add: taken_name_model_def make_model_def)
  moreover from T [THEN conjunct2, THEN conjunct2, THEN conjunct2, THEN conjunct2, THEN conjunct1]
  have "map name (graph_input (fst ?R)) = [''x'']"
    by (simp add: taken_name_model_def make_model_def make_tensor_value_info_def)
  ultimately show ?thesis by (rule conjI)
qed



end
